theory Spec2Isabelle
  imports Main
begin

section \<open>The application runner (src/app/app.go)\<close>

text \<open>
  Go errors are values; \<open>nil\<close> is \<open>None\<close>. The dependency-injection container
  (go.uber.org/fx) is an external library: the runner only calls \<open>fx.New\<close>,
  \<open>App.Err\<close> and \<open>App.Run\<close>. The container is therefore a parameter of the model: an
  \<open>fx_App\<close> carries the error \<open>fx.New\<close> recorded (\<open>Err\<close>) and the behaviour of
  \<open>App.Run\<close> on the outside world \<open>'w\<close> (start hooks, wait for a signal, stop hooks).
  \<open>App.Run\<close> has no result: it either comes back or ends the process through
  \<open>os.Exit\<close>.
\<close>

datatype error =
    context_Canceled            \<comment> \<open>the sentinel \<open>context.Canceled\<close>\<close>
  | errors_New string           \<comment> \<open>any other error, by its message\<close>
  | Wrap string error           \<comment> \<open>\<open>fmt.Errorf("<prefix>: %w", err)\<close>\<close>

datatype 'w fx_run = Comes_back 'w | Os_exit int 'w

record 'w fx_App =
  Err :: "error option"
  fx_Run :: "'w \<Rightarrow> 'w fx_run"

text \<open>\<open>type Application struct { app *fx.App }\<close>\<close>

record 'w Application =
  app :: "'w fx_App"

text \<open>\<open>func New(opts ...fx.Option) *Application\<close>, with \<open>fx.New\<close> as a parameter.\<close>

definition New :: "('o list \<Rightarrow> 'w fx_App) \<Rightarrow> 'o list \<Rightarrow> 'w Application" where
  "New fx_New opts = \<lparr>app = fx_New opts\<rparr>"

text \<open>
  \<open>func AsStartupFunc(constructor any) fx.Option { return fx.Invoke(constructor) }\<close>:
  the options of the container are its own; the two kinds the repository builds are an
  invoked function and a provided constructor.
\<close>

datatype 'c fx_Option = fx_Provide 'c | fx_Invoke 'c

definition AsStartupFunc :: "'c \<Rightarrow> 'c fx_Option" where
  "AsStartupFunc constructor = fx_Invoke constructor"

text \<open>
  What a call of \<open>Application.Run\<close> ends in: it returns an error value (\<open>None\<close> is
  \<open>nil\<close>) or the process exits inside \<open>fx\<close> before the call returns.
\<close>

datatype 'w run_result = Returned "error option" 'w | Exited int 'w

text \<open>
  \<^verbatim>\<open>
  func (a *Application) Run() error {
      if err := a.app.Err(); err != nil { return err }
      a.app.Run()
      return nil
  }\<close>
\<close>

definition Run :: "'w Application \<Rightarrow> 'w \<Rightarrow> 'w run_result" where
  "Run a w =
     (case Err (app a) of
        Some err \<Rightarrow> Returned (Some err) w
      | None \<Rightarrow>
          (case fx_Run (app a) w of
             Comes_back w' \<Rightarrow> Returned None w'
           | Os_exit code w' \<Rightarrow> Exited code w'))"

section \<open>Logging, messages and effects shared by the modules\<close>

text \<open>
  \<open>log.Field{Key string, Value any}\<close>: the values logged by the modules are strings and
  integers.
\<close>

datatype field_value = String_value string | Int_value int

type_synonym Field = "string \<times> field_value"

text \<open>\<open>messaging.Message\<close> (package messaging); byte slices are strings.\<close>

record Message =
  Key :: string
  Value :: string
  Topic :: string
  Timestamp :: int

text \<open>The fields of kafka-go's \<open>kafka.Message\<close> that the consumer reads.\<close>

record kafka_Message =
  msg_Topic :: string
  msg_Partition :: int
  msg_Offset :: int
  msg_Key :: string
  msg_Value :: string
  msg_Time :: int

text \<open>
  A \<open>grpc.Server\<close> is known here by the services registered on it, each a service
  name with its implementation.
\<close>

record grpc_Server =
  registered :: "(string \<times> string) list"

definition grpc_NewServer :: grpc_Server where
  "grpc_NewServer = \<lparr>registered = []\<rparr>"

text \<open>
  Everything a module does to the outside is an event of a trace, in the order the code
  does it. \<open>Go t\<close> is a \<open>go\<close> statement: the task \<open>t\<close> is handed to the scheduler
  and the statement is over; the task's own events are not events of the caller.
\<close>

datatype task = Serve grpc_Server string | Consume_loop

datatype event =
    Log_Info string "Field list"
  | Log_Error string error "Field list"
  | Listening string
  | Go task
  | GracefulStop grpc_Server
  | WithCancel
  | Cancel
  | Reader_Close
  | FetchMessage
  | Handle Message
  | CommitMessages kafka_Message

text \<open>
  The world: the trace so far, and what the operating system and the broker answer
  (\<open>net.Listen\<close> on an address, \<open>reader.Close()\<close>), which the code cannot choose.
\<close>

record world =
  trace :: "event list"
  net_Listen :: "string \<Rightarrow> error option"
  reader_Close :: "error option"

definition emit :: "event list \<Rightarrow> world \<Rightarrow> world" where
  "emit evs w = w\<lparr>trace := trace w @ evs\<rparr>"

text \<open>\<open>fx.Hook{OnStart, OnStop}\<close>; an \<open>fx.Lifecycle\<close> is the list of hooks appended.\<close>

record 'w fx_Hook =
  OnStart :: "'w \<Rightarrow> error option \<times> 'w"
  OnStop :: "'w \<Rightarrow> error option \<times> 'w"

section \<open>The gRPC server module (src/module/grpc/module.go)\<close>

text \<open>\<open>fmt.Sprintf("%d", i)\<close>: the decimal digits of a Go int.\<close>

fun digits :: "nat \<Rightarrow> string" where
  "digits n =
     (if n < 10 then [''0123456789'' ! n]
      else digits (n div 10) @ [''0123456789'' ! (n mod 10)])"

declare digits.simps [simp del]

definition itoa :: "int \<Rightarrow> string" where
  "itoa i = (if i < 0 then CHR ''-'' # digits (nat (- i)) else digits (nat i))"

text \<open>
  Go types, as far as the type assertion in \<open>RunGrpcServer\<close> tells them apart: a named
  type, the empty interface \<open>any\<close>, and a function type with its parameter and result
  types. Two function types are identical when their parameter and result types are.
\<close>

datatype go_type = Named string | Empty_interface | Func "go_type list" "go_type list"

text \<open>\<open>func(grpc.ServiceRegistrar, any)\<close>\<close>

definition registrar_type :: go_type where
  "registrar_type = Func [Named ''grpc.ServiceRegistrar'', Empty_interface] []"

text \<open>
  A value of type \<open>any\<close>: \<open>nil\<close>, or a value with its dynamic type. For a function
  value, the second component is what a call with a server and an implementation does to
  the server.
\<close>

datatype any = Nil | Boxed go_type "grpc_Server \<Rightarrow> string \<Rightarrow> grpc_Server"

text \<open>\<open>type Config struct { Port int }\<close>\<close>

record Config =
  Port :: int

text \<open>
  \<open>NewConfig\<close>: the default port, overwritten by \<open>v.UnmarshalKey("grpc", cfg)\<close> when a
  Viper instance is given (its error is dropped).
\<close>

definition NewConfig :: "(Config \<Rightarrow> Config) option \<Rightarrow> Config" where
  "NewConfig v =
     (let cfg = \<lparr>Port = 50051\<rparr>
      in case v of None \<Rightarrow> cfg | Some UnmarshalKey \<Rightarrow> UnmarshalKey cfg)"

text \<open>\<open>type serviceBinding struct { impl any; registrar any }\<close>\<close>

record serviceBinding =
  impl :: string
  registrar :: any

text \<open>
  \<open>GrpcServerParams\<close>: the configuration and the members of the group
  \<open>"grpc.services"\<close> as the container delivers them. The lifecycle is threaded through
  \<open>RunGrpcServer\<close> and the logger writes to the trace.
\<close>

record GrpcServerParams =
  Config :: Config
  Services :: "serviceBinding list"

text \<open>
  The function \<open>AsGrpcService\<close> hands to the container:
  \<open>func(impl any) serviceBinding { return serviceBinding{impl: impl, registrar: registrar} }\<close>
\<close>

definition AsGrpcService_binding :: "any \<Rightarrow> string \<Rightarrow> serviceBinding" where
  "AsGrpcService_binding registrar' impl' = \<lparr>impl = impl', registrar = registrar'\<rparr>"

text \<open>
  The type assertion \<open>binding.registrar.(func(grpc.ServiceRegistrar, any))\<close>: it holds
  when the value is not \<open>nil\<close> and its dynamic type is identical to the asserted type.
\<close>

definition assert_registrar :: "any \<Rightarrow> (grpc_Server \<Rightarrow> string \<Rightarrow> grpc_Server) option" where
  "assert_registrar v =
     (case v of
        Nil \<Rightarrow> None
      | Boxed t f \<Rightarrow> if t = registrar_type then Some f else None)"

text \<open>
  \<^verbatim>\<open>
  for _, binding := range p.Services {
      if registrarFunc, ok := binding.registrar.(func(grpc.ServiceRegistrar, any)); ok {
          registrarFunc(server, binding.impl)
      }
  }\<close>
\<close>

fun register_services :: "grpc_Server \<Rightarrow> serviceBinding list \<Rightarrow> grpc_Server" where
  "register_services server [] = server"
| "register_services server (binding # rest) =
     (case assert_registrar (registrar binding) of
        Some registrarFunc \<Rightarrow> register_services (registrarFunc server (impl binding)) rest
      | None \<Rightarrow> register_services server rest)"

text \<open>The two closures of the hook that \<open>RunGrpcServer\<close> appends.\<close>

definition grpc_OnStart :: "grpc_Server \<Rightarrow> string \<Rightarrow> world \<Rightarrow> error option \<times> world" where
  "grpc_OnStart server addr w =
     (case net_Listen w addr of
        Some err \<Rightarrow> (Some (Wrap (''failed to listen on '' @ addr) err), w)
      | None \<Rightarrow>
          (None,
           emit [Listening addr,
                 Log_Info ''Starting gRPC server'' [(''address'', String_value addr)],
                 Go (Serve server addr)] w))"

definition grpc_OnStop :: "grpc_Server \<Rightarrow> string \<Rightarrow> world \<Rightarrow> error option \<times> world" where
  "grpc_OnStop server addr w =
     (None,
      emit [Log_Info ''Stopping gRPC server'' [(''address'', String_value addr)],
            GracefulStop server] w)"

text \<open>
  \<open>func RunGrpcServer(p GrpcServerParams)\<close>: it has no result. It builds the server,
  runs the registration loop, and appends one hook to the lifecycle; it writes nothing
  to the trace itself, so the world is returned as it came.
\<close>

definition RunGrpcServer ::
  "GrpcServerParams \<Rightarrow> world fx_Hook list \<Rightarrow> world \<Rightarrow> world fx_Hook list \<times> world" where
  "RunGrpcServer p Lifecycle w =
     (let server = register_services grpc_NewServer (Services p);
          addr = '':'' @ itoa (Port (Config p))
      in (Lifecycle @
            [\<lparr>OnStart = grpc_OnStart server addr, OnStop = grpc_OnStop server addr\<rparr>],
          w))"

section \<open>The Kafka consumer (src/module/kafka/consumer.go)\<close>

text \<open>The two fields of \<open>c.reader.Config()\<close> that the consumer logs.\<close>

record ReaderConfig =
  reader_Topic :: string
  reader_GroupID :: string

text \<open>
  \<open>type KafkaConsumer struct { reader; handler; logger; cancel; ctx }\<close>. The handler is
  any implementation of \<open>messaging.Handler\<close>, with a state \<open>'h\<close> of its own. \<open>cancel\<close>
  tells whether \<open>c.cancel\<close> is set (not \<open>nil\<close>); the logger writes to the trace.
\<close>

record 'h KafkaConsumer =
  reader :: ReaderConfig
  handler :: "'h \<Rightarrow> Message \<Rightarrow> error option \<times> 'h"
  cancel :: bool

definition NewKafkaConsumer ::
  "ReaderConfig \<Rightarrow> ('h \<Rightarrow> Message \<Rightarrow> error option \<times> 'h) \<Rightarrow> 'h KafkaConsumer" where
  "NewKafkaConsumer cfg handler' = \<lparr>reader = cfg, handler = handler', cancel = False\<rparr>"

text \<open>
  \<open>func (c *KafkaConsumer) Start(ctx context.Context) error\<close>: it logs, makes the
  cancellable context, starts the goroutine and returns \<open>nil\<close>.
\<close>

definition Start :: "'h KafkaConsumer \<Rightarrow> world \<Rightarrow> error option \<times> 'h KafkaConsumer \<times> world" where
  "Start c w =
     (None,
      c\<lparr>cancel := True\<rparr>,
      emit [Log_Info ''Starting Kafka consumer''
              [(''topic'', String_value (reader_Topic (reader c))),
               (''group_id'', String_value (reader_GroupID (reader c)))],
            WithCancel,
            Go Consume_loop] w)"

text \<open>
  \<^verbatim>\<open>
  func (c *KafkaConsumer) Stop(ctx context.Context) error {
      c.logger.Info("Stopping Kafka consumer")
      if c.cancel != nil { c.cancel() }
      if err := c.reader.Close(); err != nil {
          return fmt.Errorf("failed to close Kafka reader: %w", err)
      }
      return nil
  }\<close>
\<close>

definition Stop :: "'h KafkaConsumer \<Rightarrow> world \<Rightarrow> error option \<times> world" where
  "Stop c w =
     (let w1 = emit [Log_Info ''Stopping Kafka consumer'' []] w;
          w2 = (if cancel c then emit [Cancel] w1 else w1);
          w3 = emit [Reader_Close] w2
      in case reader_Close w of
           Some err \<Rightarrow> (Some (Wrap ''failed to close Kafka reader'' err), w3)
         | None \<Rightarrow> (None, w3))"

text \<open>
  The goroutine started by \<open>Start\<close>. What one turn of its \<open>for\<close> loop meets outside
  the consumer: whether \<open>c.ctx\<close> is done at the \<open>select\<close>, what \<open>FetchMessage\<close>
  returns, and what \<open>CommitMessages\<close> returns if it is called.
\<close>

record tick =
  ctx_Done :: bool
  fetched :: "error + kafka_Message"
  committed :: "error option"

definition frameworkMsg :: "kafka_Message \<Rightarrow> Message" where
  "frameworkMsg msg =
     \<lparr>Key = msg_Key msg, Value = msg_Value msg, Topic = msg_Topic msg,
      Timestamp = msg_Time msg\<rparr>"

definition msg_fields :: "kafka_Message \<Rightarrow> Field list" where
  "msg_fields msg =
     [(''topic'', String_value (msg_Topic msg)),
      (''partition'', Int_value (msg_Partition msg)),
      (''offset'', Int_value (msg_Offset msg))]"

text \<open>
  One turn of the loop: the events of the turn, the handler's state after it, and whether
  the loop goes on (\<open>continue\<close>, or the end of the body) or the goroutine returns.
\<close>

definition consume_turn :: "'h KafkaConsumer \<Rightarrow> tick \<Rightarrow> 'h \<Rightarrow> event list \<times> 'h \<times> bool" where
  "consume_turn c t h =
     (if ctx_Done t then ([], h, False)
      else
        case fetched t of
          Inl err \<Rightarrow>
            if err = context_Canceled then ([FetchMessage], h, False)
            else ([FetchMessage, Log_Error ''Failed to fetch Kafka message'' err []], h, True)
        | Inr msg \<Rightarrow>
            (case handler c h (frameworkMsg msg) of
               (Some err, h') \<Rightarrow>
                 ([FetchMessage, Handle (frameworkMsg msg),
                   Log_Error ''Failed to handle message'' err (msg_fields msg)], h', True)
             | (None, h') \<Rightarrow>
                 (case committed t of
                    Some err \<Rightarrow>
                      ([FetchMessage, Handle (frameworkMsg msg), CommitMessages msg,
                        Log_Error ''Failed to commit Kafka message'' err (msg_fields msg)],
                       h', True)
                  | None \<Rightarrow>
                      ([FetchMessage, Handle (frameworkMsg msg), CommitMessages msg],
                       h', True))))"

text \<open>
  The loop over the turns the outside provides. The goroutine has returned, or it is
  still in the loop when the given turns are used up.
\<close>

datatype loop_status = Goroutine_returned | Still_looping

fun consume_loop ::
  "'h KafkaConsumer \<Rightarrow> tick list \<Rightarrow> 'h \<Rightarrow> event list \<times> 'h \<times> loop_status" where
  "consume_loop c [] h = ([], h, Still_looping)"
| "consume_loop c (t # ts) h =
     (case consume_turn c t h of
        (evs, h', True) \<Rightarrow>
          (case consume_loop c ts h' of (evs', h'', st) \<Rightarrow> (evs @ evs', h'', st))
      | (evs, h', False) \<Rightarrow> (evs, h', Goroutine_returned))"

section \<open>The kernel of the specification\<close>

text \<open>
  The registry, the group collector and the lifecycle coordinator are not code of this
  repository: it delegates them to the external container go.uber.org/fx. The
  definitions of this section follow the words of the specification, not a source file.
\<close>

text \<open>
  Modelled from the spec: the error taxonomy of section 7, missing from the source, with
  the capability-mismatch error of section 4.1 and the error a hook itself returns
  (\<open>Cause\<close>). StartError wraps the owning component's identity and the failing hook's
  cause.
\<close>

datatype kernel_error =
    RegistrationConflictError
  | RegistrationClosedError
  | CycleError "string list"
  | UnresolvedDependencyError string string
  | AmbiguousBindingError
  | CapabilityMismatchError
  | DeadlineExceededError
  | Cause string
  | StartError string kernel_error
  | StopError "(string \<times> kernel_error) list"

text \<open>
  Modelled from the spec: the ComponentSpec of section 3, which the source has no
  declaration of. A constructor is kept as a value \<open>'c\<close>; the lifetime is always
  singleton.
\<close>

record 'c ComponentSpec =
  producedType :: string
  dependencyTypes :: "string list"
  constructor :: 'c

text \<open>
  Modelled from the spec: the Binding of section 3, which the source has no declaration
  of: concreteType's instance satisfies interfaceType.
\<close>

record Binding =
  interfaceType :: string
  concreteType :: string

text \<open>
  Modelled from the spec: the GroupEntry of section 3, which the source has no
  declaration of. Several entries may share a groupName.
\<close>

record 'c GroupEntry =
  groupName :: string
  memberType :: string
  member_constructor :: 'c

text \<open>
  Modelled from the spec: the Provider Registry of section 4.1, missing from the
  source. Registration order is the order of the lists.
\<close>

record 'c Registry =
  components :: "'c ComponentSpec list"
  bindings :: "Binding list"
  group_entries :: "'c GroupEntry list"
  sealed :: bool

text \<open>
  Modelled from the spec: \<open>RegisterComponent\<close> (section 4.1), missing from the source:
  it fails with RegistrationConflictError if producedType already has a non-group
  registration, and with RegistrationClosedError once the registry is sealed.
\<close>

definition RegisterComponent ::
  "'c Registry \<Rightarrow> 'c ComponentSpec \<Rightarrow> kernel_error + 'c Registry" where
  "RegisterComponent reg spec =
     (if sealed reg then Inl RegistrationClosedError
      else if producedType spec \<in> set (map producedType (components reg))
        then Inl RegistrationConflictError
      else Inr (reg\<lparr>components := components reg @ [spec]\<rparr>))"

text \<open>
  Modelled from the spec: \<open>RegisterGroupMember\<close> (section 4.1), missing from the
  source: it always appends, with no limit on the members of a group, and fails with
  RegistrationClosedError once the registry is sealed.
\<close>

definition RegisterGroupMember ::
  "'c Registry \<Rightarrow> 'c GroupEntry \<Rightarrow> kernel_error + 'c Registry" where
  "RegisterGroupMember reg entry =
     (if sealed reg then Inl RegistrationClosedError
      else Inr (reg\<lparr>group_entries := group_entries reg @ [entry]\<rparr>))"

text \<open>
  Modelled from the spec: \<open>RegisterBinding\<close> (section 4.1), missing from the source: it
  fails with UnresolvedDependencyError if concreteType has no registration and with a
  capability-mismatch error if concreteType lacks the operations of interfaceType
  (\<open>capable\<close> is that relation).
\<close>

definition RegisterBinding ::
  "(string \<Rightarrow> string \<Rightarrow> bool) \<Rightarrow> 'c Registry \<Rightarrow> Binding \<Rightarrow> kernel_error + 'c Registry" where
  "RegisterBinding capable reg b =
     (if sealed reg then Inl RegistrationClosedError
      else if concreteType b \<notin> set (map producedType (components reg))
        then Inl (UnresolvedDependencyError (interfaceType b) (concreteType b))
      else if \<not> capable (concreteType b) (interfaceType b) then Inl CapabilityMismatchError
      else Inr (reg\<lparr>bindings := bindings reg @ [b]\<rparr>))"

text \<open>
  Modelled from the spec: the registration phase of section 3 (one builder object,
  mutable until sealed), missing from the source: a registration call of a program, and
  a program's calls made one after the other; a call that fails leaves the registry as
  it was.
\<close>

datatype 'c registration =
    Component "'c ComponentSpec"
  | Bind Binding
  | GroupMember "'c GroupEntry"

definition register ::
  "(string \<Rightarrow> string \<Rightarrow> bool) \<Rightarrow> 'c Registry \<Rightarrow> 'c registration \<Rightarrow> 'c Registry" where
  "register capable reg r =
     (case (case r of
              Component spec \<Rightarrow> RegisterComponent reg spec
            | Bind b \<Rightarrow> RegisterBinding capable reg b
            | GroupMember entry \<Rightarrow> RegisterGroupMember reg entry) of
        Inl err \<Rightarrow> reg
      | Inr reg' \<Rightarrow> reg')"

text \<open>
  Modelled from the spec: the registration phase of section 3 again, the calls of a
  program applied from left to right.
\<close>

definition register_all ::
  "(string \<Rightarrow> string \<Rightarrow> bool) \<Rightarrow> 'c Registry \<Rightarrow> 'c registration list \<Rightarrow> 'c Registry" where
  "register_all capable reg rs = foldl (register capable) reg rs"

text \<open>
  Modelled from the spec: "registering members c1, c2, c3 to group G, in that order,
  regardless of interleaving with unrelated registrations" (section 8): the
  constructors that a list of calls registers to \<open>G\<close>, in the order of the calls.
\<close>

fun registered_to :: "string \<Rightarrow> 'c registration list \<Rightarrow> 'c list" where
  "registered_to G [] = []"
| "registered_to G (GroupMember entry # rs) =
     (if groupName entry = G then member_constructor entry # registered_to G rs
      else registered_to G rs)"
| "registered_to G (r # rs) = registered_to G rs"

text \<open>
  Modelled from the spec: the Group Collector of section 4.4, missing from the source:
  the members of a group are instantiated in registration order and the aggregate is an
  ordered sequence, with duplicates and without deduplication, delivered as one value;
  a group with no member gives the empty sequence. \<open>instantiate\<close> runs a constructor.
\<close>

definition collect_group :: "('c \<Rightarrow> 'i) \<Rightarrow> 'c Registry \<Rightarrow> string \<Rightarrow> 'i list" where
  "collect_group instantiate reg G =
     map (\<lambda>entry. instantiate (member_constructor entry))
       (filter (\<lambda>entry. groupName entry = G) (group_entries reg))"

text \<open>
  Modelled from the spec: the Hook of section 3, missing from the source. A hook call
  ends well, fails with a cause, or exceeds the timeout of its context; \<open>onStop\<close> may be
  absent.
\<close>

datatype hook_outcome = Ok | Failed string | Overran

record 's Hook =
  ownerType :: string
  onStart :: "'s \<Rightarrow> hook_outcome \<times> 's"
  onStop :: "('s \<Rightarrow> hook_outcome \<times> 's) option"

text \<open>
  Modelled from the spec: section 4.5, exceeding the timeout is reported as
  DeadlineExceededError and treated as that hook's failure.
\<close>

fun hook_error :: "hook_outcome \<Rightarrow> kernel_error option" where
  "hook_error Ok = None"
| "hook_error (Failed cause) = Some (Cause cause)"
| "hook_error Overran = Some DeadlineExceededError"

text \<open>
  Modelled from the spec: the hook invocations of section 4.5, as the coordinator makes
  them: the position of the hook in start order (from 0), and for a start call what the
  hook returned.
\<close>

datatype hook_call = Called_onStart nat hook_outcome | Called_onStop nat

text \<open>
  Modelled from the spec: the rollback of section 4.5, missing from the source:
  \<open>onStop\<close> of the hooks given (the started ones, latest first), best effort, ignoring
  the errors of the rollback.
\<close>

fun rollback ::
  "(nat \<times> 's Hook) list \<Rightarrow> 's \<Rightarrow> hook_call list \<Rightarrow> 's \<times> hook_call list" where
  "rollback [] s calls = (s, calls)"
| "rollback ((i, h) # started) s calls =
     (case onStop h of
        None \<Rightarrow> rollback started s calls
      | Some stop \<Rightarrow> rollback started (snd (stop s)) (calls @ [Called_onStop i]))"

text \<open>
  Modelled from the spec: \<open>Start(ctx)\<close> of section 4.5, missing from the source: every
  \<open>onStart\<close> in construction order; if hook j returns an error Start aborts at once,
  calls \<open>onStop\<close> for the hooks before j in reverse order, and reports hook j's
  error as the cause, with the owning component (StartError). \<open>start_from j\<close> runs the
  hooks from position \<open>j\<close> on; \<open>started\<close> holds the hooks already started, latest first.
\<close>

fun start_from ::
  "nat \<Rightarrow> 's Hook list \<Rightarrow> (nat \<times> 's Hook) list \<Rightarrow> 's \<Rightarrow> hook_call list \<Rightarrow>
   kernel_error option \<times> 's \<times> hook_call list" where
  "start_from j [] started s calls = (None, s, calls)"
| "start_from j (h # hs) started s calls =
     (case onStart h s of
        (r, s') \<Rightarrow>
          (case hook_error r of
             None \<Rightarrow> start_from (Suc j) hs ((j, h) # started) s' (calls @ [Called_onStart j r])
           | Some cause \<Rightarrow>
               (case rollback started s' (calls @ [Called_onStart j r]) of
                  (s'', calls') \<Rightarrow> (Some (StartError (ownerType h) cause), s'', calls'))))"

text \<open>
  Modelled from the spec: \<open>Start(ctx)\<close> of section 4.5 on the collected hooks, from
  the first hook, with nothing started and no call made yet.
\<close>

definition Start_hooks :: "'s Hook list \<Rightarrow> 's \<Rightarrow> kernel_error option \<times> 's \<times> hook_call list" where
  "Start_hooks hooks s = start_from 0 hooks [] s []"

section \<open>Example inputs\<close>

text \<open>
  Two applications whose graph resolves (\<open>Err\<close> is \<open>nil\<close>) and whose hooks fail, and
  one whose graph has a cycle. The world is the list of hook calls made. In the first
  the start hook of component A fails and the container ends the process with status 1;
  in the second every start hook succeeds, a stop hook fails, and the container's
  \<open>Run\<close> comes back; in the third \<open>fx.New\<close> recorded the cycle.
\<close>

definition start_hook_fails :: "string list Application" where
  "start_hook_fails =
     \<lparr>app = \<lparr>Err = None, fx_Run = (\<lambda>w. Os_exit 1 (w @ [''A.OnStart: boom'']))\<rparr>\<rparr>"

definition stop_hook_fails :: "string list Application" where
  "stop_hook_fails =
     \<lparr>app = \<lparr>Err = None,
        fx_Run = (\<lambda>w. Comes_back (w @ [''A.OnStart: ok'', ''A.OnStop: boom'']))\<rparr>\<rparr>"

definition resolve_fails :: "string list Application" where
  "resolve_fails =
     \<lparr>app = \<lparr>Err = Some (errors_New ''cycle detected: A -> B -> A''),
        fx_Run = (\<lambda>w. Comes_back (w @ [''A.OnStart: ok'', ''A.OnStop: ok'']))\<rparr>\<rparr>"

text \<open>A world where every listen and the reader's close succeed.\<close>

definition quiet_world :: world where
  "quiet_world = \<lparr>trace = [], net_Listen = (\<lambda>addr. None), reader_Close = None\<rparr>"

text \<open>
  A registrar that registers the service "UserService", once under the type
  \<open>func(grpc.ServiceRegistrar, any)\<close> and once under the type of a generated
  registrar, \<open>func(grpc.ServiceRegistrar, pb.UserServiceServer)\<close>.
\<close>

definition register_UserService :: "grpc_Server \<Rightarrow> string \<Rightarrow> grpc_Server" where
  "register_UserService s srv = s\<lparr>registered := registered s @ [(''UserService'', srv)]\<rparr>"

definition untyped_binding :: serviceBinding where
  "untyped_binding =
     AsGrpcService_binding (Boxed registrar_type register_UserService) ''userService''"

definition generated_binding :: serviceBinding where
  "generated_binding =
     AsGrpcService_binding
       (Boxed (Func [Named ''grpc.ServiceRegistrar'', Named ''pb.UserServiceServer''] [])
          register_UserService)
       ''userService''"

text \<open>A sealed registry whose only group member belongs to another group.\<close>

definition no_services :: "string Registry" where
  "no_services =
     \<lparr>components = [], bindings = [],
      group_entries = [\<lparr>groupName = ''http.handlers'', memberType = ''Handler'',
                        member_constructor = ''NewGreetingHandler''\<rparr>],
      sealed = True\<rparr>"

text \<open>A handler that rejects empty payloads and counts the messages it accepted.\<close>

definition reject_empty :: "nat \<Rightarrow> Message \<Rightarrow> error option \<times> nat" where
  "reject_empty n m =
     (if Value m = [] then (Some (errors_New ''empty payload''), n) else (None, Suc n))"

definition events_consumer :: "nat KafkaConsumer" where
  "events_consumer =
     NewKafkaConsumer \<lparr>reader_Topic = ''events'', reader_GroupID = ''things-kit-consumer''\<rparr>
       reject_empty"

definition good_msg :: kafka_Message where
  "good_msg = \<lparr>msg_Topic = ''events'', msg_Partition = 0, msg_Offset = 7,
               msg_Key = ''k1'', msg_Value = ''v1'', msg_Time = 1700000000\<rparr>"

definition empty_msg :: kafka_Message where
  "empty_msg = \<lparr>msg_Topic = ''events'', msg_Partition = 0, msg_Offset = 6,
                msg_Key = ''k0'', msg_Value = [], msg_Time = 1700000000\<rparr>"

definition fetch_of :: "kafka_Message \<Rightarrow> error option \<Rightarrow> tick" where
  "fetch_of msg commit_result =
     \<lparr>ctx_Done = False, fetched = Inr msg, committed = commit_result\<rparr>"

text \<open>
  An empty, open registry and a program that registers c1, c2 and c1 again to the group
  "http.handlers", between a component, a member of another group and a binding.
\<close>

definition empty_registry :: "string Registry" where
  "empty_registry = \<lparr>components = [], bindings = [], group_entries = [], sealed = False\<rparr>"

definition handler_program :: "string registration list" where
  "handler_program =
     [GroupMember \<lparr>groupName = ''http.handlers'', memberType = ''Handler'',
                   member_constructor = ''c1''\<rparr>,
      Component \<lparr>producedType = ''Logger'', dependencyTypes = [], constructor = ''NewLogger''\<rparr>,
      GroupMember \<lparr>groupName = ''grpc.services'', memberType = ''Binding'',
                   member_constructor = ''d1''\<rparr>,
      GroupMember \<lparr>groupName = ''http.handlers'', memberType = ''Handler'',
                   member_constructor = ''c2''\<rparr>,
      Bind \<lparr>interfaceType = ''log.Logger'', concreteType = ''Logger''\<rparr>,
      GroupMember \<lparr>groupName = ''http.handlers'', memberType = ''Handler'',
                   member_constructor = ''c1''\<rparr>]"

text \<open>
  Five hooks over a state that lists the hook bodies run. D's \<open>onStart\<close> fails, B has no
  \<open>onStop\<close>, and A's \<open>onStop\<close> fails.
\<close>

definition hook_of :: "string \<Rightarrow> hook_outcome \<Rightarrow> hook_outcome option \<Rightarrow> string list Hook" where
  "hook_of name start_result stop_result =
     \<lparr>ownerType = name,
      onStart = (\<lambda>s. (start_result, s @ [name @ ''.onStart''])),
      onStop = map_option (\<lambda>r s. (r, s @ [name @ ''.onStop''])) stop_result\<rparr>"

definition demo_hooks :: "string list Hook list" where
  "demo_hooks =
     [hook_of ''A'' Ok (Some (Failed ''stuck'')),
      hook_of ''B'' Ok None,
      hook_of ''C'' Ok (Some Ok),
      hook_of ''D'' (Failed ''boom'') (Some Ok),
      hook_of ''E'' Ok (Some Ok)]"

text \<open>The state in which the hook at position \<open>i\<close> starts, for the hooks before D.\<close>

definition demo_states :: "nat \<Rightarrow> string list" where
  "demo_states i = take i [''A.onStart'', ''B.onStart'', ''C.onStart'']"

section \<open>Properties of the application runner\<close>

text \<open>
  C1, evaluated at the failing inputs. The claim says that Run returns a non-nil error
  wrapping the failure when a start hook or a stop hook fails, and the comment on
  \<open>Run\<close> says the same. The code returns \<open>nil\<close> after \<open>a.app.Run()\<close> whatever
  happened in it: with a failing start hook the call ends in the container's process
  exit, with a failing stop hook it returns \<open>nil\<close>. In neither case is a non-nil error
  returned.
\<close>

theorem Run_hook_failure_not_returned:
  "Run start_hook_fails [] = Exited 1 [''A.OnStart: boom''] \<and>
   Run stop_hook_fails [] = Returned None [''A.OnStart: ok'', ''A.OnStop: boom'']"
  by (simp add: Run_def start_hook_fails_def stop_hook_fails_def)

text \<open>
  C2. If graph resolution failed (\<open>a.app.Err()\<close> is not \<open>nil\<close>), Run returns exactly
  that error and leaves the world as it was: the container's \<open>Run\<close>, the only place
  where lifecycle hooks execute, is never entered. The result is the same whatever the
  container's \<open>Run\<close> would have done.
\<close>

theorem Run_resolve_error_before_hooks:
  assumes "Err (app a) = Some err"
  shows "Run a w = Returned (Some err) w \<and>
         Run (a\<lparr>app := (app a)\<lparr>fx_Run := r\<rparr>\<rparr>) w = Run a w"
  using assms by (simp add: Run_def)

theorem Run_resolve_error_before_hooks_witness:
  "Err (app resolve_fails) = Some (errors_New ''cycle detected: A -> B -> A'') \<and>
   Run resolve_fails [] = Returned (Some (errors_New ''cycle detected: A -> B -> A'')) []"
proof -
  have h: "Err (app resolve_fails) = Some (errors_New ''cycle detected: A -> B -> A'')"
    by (simp add: resolve_fails_def)
  show ?thesis
    using h Run_resolve_error_before_hooks [OF h, of "[]"] by simp
qed

section \<open>Properties of the gRPC server module\<close>

lemma register_services_append:
  "register_services server (bs @ rest) = register_services (register_services server bs) rest"
  by (induction bs arbitrary: server) (auto split: option.splits)

lemma assert_registrar_exact:
  "assert_registrar v = Some f \<longleftrightarrow> v = Boxed registrar_type f"
  by (cases v) (auto simp: assert_registrar_def)

lemma assert_registrar_other:
  "(\<forall>g. v \<noteq> Boxed registrar_type g) \<Longrightarrow> assert_registrar v = None"
  by (cases v) (auto simp: assert_registrar_def)

lemma register_services_exact:
  "registrar binding = Boxed registrar_type f \<Longrightarrow>
   register_services server (bs @ binding # rest) =
     register_services (f (register_services server bs) (impl binding)) rest"
  by (simp add: register_services_append assert_registrar_def)

lemma register_services_other:
  "\<forall>g. registrar binding \<noteq> Boxed registrar_type g \<Longrightarrow>
   register_services server (bs @ binding # rest) = register_services server (bs @ rest)"
  by (simp add: register_services_append assert_registrar_other)

lemma RunGrpcServer_hook:
  "RunGrpcServer p Lifecycle w =
     (Lifecycle @
        [\<lparr>OnStart = grpc_OnStart (register_services grpc_NewServer (Services p))
                      ('':'' @ itoa (Port (Config p))),
          OnStop = grpc_OnStop (register_services grpc_NewServer (Services p))
                     ('':'' @ itoa (Port (Config p)))\<rparr>],
      w)"
  by (simp add: RunGrpcServer_def Let_def)

text \<open>
  C10. \<open>RunGrpcServer\<close> calls a binding's registrar exactly when its dynamic type is
  \<open>func(grpc.ServiceRegistrar, any)\<close>. With such a registrar, the server that the hook
  appended by \<open>RunGrpcServer\<close> serves is the one on which the registrar was called, at
  the binding's turn, with the server and the binding's implementation. With a registrar
  of any other dynamic type (or \<open>nil\<close>) the binding is skipped: the result of
  \<open>RunGrpcServer\<close> is what it is without that binding, and the hook serves the server
  built from the other bindings alone. In both cases \<open>RunGrpcServer\<close> returns no
  error, leaves the trace as it was, appends one hook, and the hook's \<open>OnStart\<close>
  starts serving when the port can be bound.
\<close>

theorem RunGrpcServer_registrar_type:
  assumes "Services p = bs @ binding # rest"
    and "net_Listen w' ('':'' @ itoa (Port (Config p))) = None"
  shows "(registrar binding = Boxed registrar_type f \<longrightarrow>
            (\<exists>hook. RunGrpcServer p Lifecycle w = (Lifecycle @ [hook], w) \<and>
               OnStart hook w' =
                 (None,
                  emit [Listening ('':'' @ itoa (Port (Config p))),
                        Log_Info ''Starting gRPC server''
                          [(''address'', String_value ('':'' @ itoa (Port (Config p))))],
                        Go (Serve
                              (register_services
                                 (f (register_services grpc_NewServer bs) (impl binding)) rest)
                              ('':'' @ itoa (Port (Config p))))] w'))) \<and>
         ((\<forall>g. registrar binding \<noteq> Boxed registrar_type g) \<longrightarrow>
            RunGrpcServer p Lifecycle w =
              RunGrpcServer (p\<lparr>Services := bs @ rest\<rparr>) Lifecycle w \<and>
            (\<exists>hook. RunGrpcServer p Lifecycle w = (Lifecycle @ [hook], w) \<and>
               OnStart hook w' =
                 (None,
                  emit [Listening ('':'' @ itoa (Port (Config p))),
                        Log_Info ''Starting gRPC server''
                          [(''address'', String_value ('':'' @ itoa (Port (Config p))))],
                        Go (Serve (register_services grpc_NewServer (bs @ rest))
                              ('':'' @ itoa (Port (Config p))))] w')))"
proof (intro conjI impI)
  assume t: "registrar binding = Boxed registrar_type f"
  have s: "register_services grpc_NewServer (Services p) =
      register_services (f (register_services grpc_NewServer bs) (impl binding)) rest"
    using assms(1) t by (simp add: register_services_exact)
  show "\<exists>hook. RunGrpcServer p Lifecycle w = (Lifecycle @ [hook], w) \<and>
      OnStart hook w' =
        (None,
         emit [Listening ('':'' @ itoa (Port (Config p))),
               Log_Info ''Starting gRPC server''
                 [(''address'', String_value ('':'' @ itoa (Port (Config p))))],
               Go (Serve
                     (register_services
                        (f (register_services grpc_NewServer bs) (impl binding)) rest)
                     ('':'' @ itoa (Port (Config p))))] w')"
    using assms(2) by (simp add: RunGrpcServer_hook s grpc_OnStart_def)
next
  assume n: "\<forall>g. registrar binding \<noteq> Boxed registrar_type g"
  have s: "register_services grpc_NewServer (Services p) =
      register_services grpc_NewServer (bs @ rest)"
    using assms(1) n by (simp add: register_services_other)
  show "RunGrpcServer p Lifecycle w = RunGrpcServer (p\<lparr>Services := bs @ rest\<rparr>) Lifecycle w"
    by (simp add: RunGrpcServer_hook s)
  show "\<exists>hook. RunGrpcServer p Lifecycle w = (Lifecycle @ [hook], w) \<and>
      OnStart hook w' =
        (None,
         emit [Listening ('':'' @ itoa (Port (Config p))),
               Log_Info ''Starting gRPC server''
                 [(''address'', String_value ('':'' @ itoa (Port (Config p))))],
               Go (Serve (register_services grpc_NewServer (bs @ rest))
                     ('':'' @ itoa (Port (Config p))))] w')"
    using assms(2) by (simp add: RunGrpcServer_hook s grpc_OnStart_def)
qed

theorem RunGrpcServer_registrar_type_witness:
  "Services \<lparr>Config = NewConfig None, Services = [untyped_binding]\<rparr> =
     [] @ untyped_binding # [] \<and>
   Services \<lparr>Config = NewConfig None, Services = [generated_binding]\<rparr> =
     [] @ generated_binding # [] \<and>
   net_Listen quiet_world '':50051'' = None \<and>
   registrar untyped_binding = Boxed registrar_type register_UserService \<and>
   (\<forall>g. registrar generated_binding \<noteq> Boxed registrar_type g) \<and>
   (\<exists>hook. RunGrpcServer \<lparr>Config = NewConfig None, Services = [untyped_binding]\<rparr> []
              quiet_world = ([hook], quiet_world) \<and>
      OnStart hook quiet_world =
        (None,
         emit [Listening '':50051'',
               Log_Info ''Starting gRPC server'' [(''address'', String_value '':50051'')],
               Go (Serve \<lparr>registered = [(''UserService'', ''userService'')]\<rparr> '':50051'')]
           quiet_world)) \<and>
   (\<exists>hook. RunGrpcServer \<lparr>Config = NewConfig None, Services = [generated_binding]\<rparr> []
              quiet_world = ([hook], quiet_world) \<and>
      OnStart hook quiet_world =
        (None,
         emit [Listening '':50051'',
               Log_Info ''Starting gRPC server'' [(''address'', String_value '':50051'')],
               Go (Serve grpc_NewServer '':50051'')]
           quiet_world))"
proof -
  let ?pu = "\<lparr>Config = NewConfig None, Services = [untyped_binding]\<rparr>"
  let ?pg = "\<lparr>Config = NewConfig None, Services = [generated_binding]\<rparr>"
  have su: "Services ?pu = [] @ untyped_binding # []"
    and sg: "Services ?pg = [] @ generated_binding # []"
    by simp_all
  have port: "'':'' @ itoa (Port (Config ?pu)) = '':50051''"
    "'':'' @ itoa (Port (Config ?pg)) = '':50051''"
    by (simp_all add: NewConfig_def itoa_def digits.simps)
  have lu: "net_Listen quiet_world ('':'' @ itoa (Port (Config ?pu))) = None"
    and lg: "net_Listen quiet_world ('':'' @ itoa (Port (Config ?pg))) = None"
    by (simp_all add: quiet_world_def)
  have l: "net_Listen quiet_world '':50051'' = None"
    by (simp add: quiet_world_def)
  have t: "registrar untyped_binding = Boxed registrar_type register_UserService"
    by (simp add: untyped_binding_def AsGrpcService_binding_def)
  have n: "\<forall>g. registrar generated_binding \<noteq> Boxed registrar_type g"
    by (simp add: generated_binding_def AsGrpcService_binding_def registrar_type_def)
  have v: "register_services
             (register_UserService (register_services grpc_NewServer []) (impl untyped_binding))
             [] = \<lparr>registered = [(''UserService'', ''userService'')]\<rparr>"
    by (simp add: register_UserService_def grpc_NewServer_def untyped_binding_def
        AsGrpcService_binding_def)
  have e: "register_services grpc_NewServer [] = grpc_NewServer"
    by simp
  note good = RunGrpcServer_registrar_type
    [OF su lu, of register_UserService "[]" quiet_world, unfolded port v append_Nil]
  note skipped = RunGrpcServer_registrar_type
    [OF sg lg, of register_UserService "[]" quiet_world, unfolded port append_Nil e]
  from good t have a: "\<exists>hook. RunGrpcServer ?pu [] quiet_world = ([hook], quiet_world) \<and>
      OnStart hook quiet_world =
        (None,
         emit [Listening '':50051'',
               Log_Info ''Starting gRPC server'' [(''address'', String_value '':50051'')],
               Go (Serve \<lparr>registered = [(''UserService'', ''userService'')]\<rparr> '':50051'')]
           quiet_world)"
    by blast
  from skipped n have b: "\<exists>hook. RunGrpcServer ?pg [] quiet_world = ([hook], quiet_world) \<and>
      OnStart hook quiet_world =
        (None,
         emit [Listening '':50051'',
               Log_Info ''Starting gRPC server'' [(''address'', String_value '':50051'')],
               Go (Serve grpc_NewServer '':50051'')]
           quiet_world)"
    by blast
  from su sg l t n a b show ?thesis
    by blast
qed

text \<open>
  C4. A group with no registered member is delivered as the empty sequence (the group
  collector of the specification), and the gRPC server that receives an empty
  \<open>"grpc.services"\<close> group still appends its hook; when the port can be bound, the
  hook's \<open>OnStart\<close> listens on the address, starts \<open>Serve\<close> on a server without
  services, and returns \<open>nil\<close>.
\<close>

theorem empty_group_server_starts:
  assumes "''grpc.services'' \<notin> set (map groupName (group_entries reg))"
    and "Services p = collect_group instantiate reg ''grpc.services''"
    and "net_Listen w ('':'' @ itoa (Port (Config p))) = None"
  shows "Services p = [] \<and>
         (\<exists>hook. fst (RunGrpcServer p Lifecycle w0) = Lifecycle @ [hook] \<and>
            OnStart hook w =
              (None,
               emit [Listening ('':'' @ itoa (Port (Config p))),
                     Log_Info ''Starting gRPC server''
                       [(''address'', String_value ('':'' @ itoa (Port (Config p))))],
                     Go (Serve grpc_NewServer ('':'' @ itoa (Port (Config p))))] w))"
proof -
  from assms(1) have "filter (\<lambda>entry. groupName entry = ''grpc.services'') (group_entries reg) = []"
    by (force simp: filter_empty_conv)
  with assms(2) have e: "Services p = []"
    by (simp add: collect_group_def)
  moreover have "\<exists>hook. fst (RunGrpcServer p Lifecycle w0) = Lifecycle @ [hook] \<and>
            OnStart hook w =
              (None,
               emit [Listening ('':'' @ itoa (Port (Config p))),
                     Log_Info ''Starting gRPC server''
                       [(''address'', String_value ('':'' @ itoa (Port (Config p))))],
                     Go (Serve grpc_NewServer ('':'' @ itoa (Port (Config p))))] w)"
    using assms(3) e by (simp add: RunGrpcServer_def Let_def grpc_OnStart_def)
  ultimately show ?thesis by simp
qed

theorem empty_group_server_starts_witness:
  "''grpc.services'' \<notin> set (map groupName (group_entries no_services)) \<and>
   net_Listen quiet_world '':50051'' = None \<and>
   collect_group (\<lambda>c. AsGrpcService_binding Nil c) no_services ''grpc.services'' = [] \<and>
   (\<exists>hook. fst (RunGrpcServer
               \<lparr>Config = NewConfig None,
                Services = collect_group (\<lambda>c. AsGrpcService_binding Nil c) no_services
                             ''grpc.services''\<rparr> [] quiet_world) = [hook] \<and>
      OnStart hook quiet_world =
        (None,
         emit [Listening '':50051'',
               Log_Info ''Starting gRPC server'' [(''address'', String_value '':50051'')],
               Go (Serve grpc_NewServer '':50051'')] quiet_world))"
proof -
  let ?p = "\<lparr>Config = NewConfig None,
             Services = collect_group (\<lambda>c. AsGrpcService_binding Nil c) no_services
                          ''grpc.services''\<rparr>"
  have port: "'':'' @ itoa (Port (Config ?p)) = '':50051''"
    by (simp add: NewConfig_def itoa_def digits.simps)
  have h1: "''grpc.services'' \<notin> set (map groupName (group_entries no_services))"
    by (simp add: no_services_def)
  have h2: "Services ?p = collect_group (\<lambda>c. AsGrpcService_binding Nil c) no_services ''grpc.services''"
    by simp
  have h3: "net_Listen quiet_world ('':'' @ itoa (Port (Config ?p))) = None"
    by (simp add: quiet_world_def)
  note r = empty_group_server_starts [OF h1 h2 h3, of "[]" quiet_world, unfolded port append_Nil]
  from r have e: "collect_group (\<lambda>c. AsGrpcService_binding Nil c) no_services ''grpc.services'' = []"
    by simp
  from r h1 h3 e show ?thesis
    unfolding port by blast
qed

section \<open>Properties of the Kafka consumer\<close>

text \<open>
  C6. \<open>KafkaConsumer.Start\<close> returns \<open>nil\<close> in every case; the last thing it does is
  the \<open>go\<close> statement that starts the consume loop, and nothing it does before is a
  fetch, a handler call or a commit. The gRPC hook's \<open>OnStart\<close>, when the listen
  succeeds, returns \<open>nil\<close> and the last thing it does is the \<open>go\<close> statement that
  starts \<open>Serve\<close>: neither hook waits for the task it started.
\<close>

theorem onStart_hooks_do_not_wait:
  "fst (Start c w) = None \<and>
   (\<exists>evs. trace (snd (snd (Start c w))) = trace w @ evs @ [Go Consume_loop] \<and>
      FetchMessage \<notin> set evs \<and> (\<forall>m. Handle m \<notin> set evs) \<and>
      (\<forall>m. CommitMessages m \<notin> set evs)) \<and>
   (net_Listen w addr = None \<longrightarrow>
      fst (grpc_OnStart server addr w) = None \<and>
      (\<exists>evs. trace (snd (grpc_OnStart server addr w)) =
         trace w @ evs @ [Go (Serve server addr)]))"
proof (intro conjI impI)
  show "fst (Start c w) = None"
    by (simp add: Start_def)
  let ?evs = "[Log_Info ''Starting Kafka consumer''
                [(''topic'', String_value (reader_Topic (reader c))),
                 (''group_id'', String_value (reader_GroupID (reader c)))],
               WithCancel]"
  have "trace (snd (snd (Start c w))) = trace w @ ?evs @ [Go Consume_loop]"
    by (simp add: Start_def emit_def)
  moreover have "FetchMessage \<notin> set ?evs \<and> (\<forall>m. Handle m \<notin> set ?evs) \<and>
      (\<forall>m. CommitMessages m \<notin> set ?evs)"
    by simp
  ultimately show "\<exists>evs. trace (snd (snd (Start c w))) = trace w @ evs @ [Go Consume_loop] \<and>
      FetchMessage \<notin> set evs \<and> (\<forall>m. Handle m \<notin> set evs) \<and>
      (\<forall>m. CommitMessages m \<notin> set evs)"
    by blast
next
  assume l: "net_Listen w addr = None"
  then show "fst (grpc_OnStart server addr w) = None"
    by (simp add: grpc_OnStart_def)
  from l have "trace (snd (grpc_OnStart server addr w)) =
      trace w @ [Listening addr,
                 Log_Info ''Starting gRPC server'' [(''address'', String_value addr)]] @
        [Go (Serve server addr)]"
    by (simp add: grpc_OnStart_def emit_def)
  then show "\<exists>evs. trace (snd (grpc_OnStart server addr w)) =
         trace w @ evs @ [Go (Serve server addr)]"
    by blast
qed

theorem onStart_hooks_do_not_wait_witness:
  "net_Listen quiet_world '':50051'' = None \<and>
   fst (Start events_consumer quiet_world) = None \<and>
   fst (grpc_OnStart grpc_NewServer '':50051'' quiet_world) = None \<and>
   (\<exists>evs. trace (snd (grpc_OnStart grpc_NewServer '':50051'' quiet_world)) =
      trace quiet_world @ evs @ [Go (Serve grpc_NewServer '':50051'')])"
proof -
  have l: "net_Listen quiet_world '':50051'' = None"
    by (simp add: quiet_world_def)
  from onStart_hooks_do_not_wait [of events_consumer quiet_world "'':50051''" grpc_NewServer] l
  show ?thesis
    by blast
qed

text \<open>
  C7, evaluated at the failing input. The claim, and the comment on
  \<open>messaging.Consumer.Stop\<close>, say that Stop waits for the in-flight message processing
  of the goroutine started by Start. On a consumer that was started, \<open>Stop\<close> logs,
  cancels the context, closes the reader and returns: nothing it does waits for the
  consume loop.
\<close>

theorem Stop_returns_without_waiting:
  "(case Start events_consumer quiet_world of (err, c, w) \<Rightarrow> Stop c w) =
     (None,
      quiet_world\<lparr>trace :=
        [Log_Info ''Starting Kafka consumer''
           [(''topic'', String_value ''events''),
            (''group_id'', String_value ''things-kit-consumer'')],
         WithCancel,
         Go Consume_loop,
         Log_Info ''Stopping Kafka consumer'' [],
         Cancel,
         Reader_Close]\<rparr>)"
  by (simp add: Start_def Stop_def emit_def events_consumer_def NewKafkaConsumer_def
      quiet_world_def)

lemma consume_turn_fetched:
  assumes "\<not> ctx_Done t" and "fetched t = Inr msg"
  shows "snd (snd (consume_turn c t h))"
    and "CommitMessages msg \<in> set (fst (consume_turn c t h)) \<longleftrightarrow>
         fst (handler c h (frameworkMsg msg)) = None"
  using assms by (auto simp: consume_turn_def split: prod.splits option.splits)

text \<open>
  C9. In a turn of the consume loop that fetches a message, \<open>CommitMessages\<close> is
  called for the message if and only if the handler returned \<open>nil\<close> for it. Whatever
  the handler and the commit return, the turn ends with the loop going on: the events
  of the loop are the events of this turn followed by those of the loop on the turns
  that remain.
\<close>

theorem consume_commits_iff_handled:
  assumes "\<not> ctx_Done t" and "fetched t = Inr msg"
  shows "(CommitMessages msg \<in> set (fst (consume_turn c t h)) \<longleftrightarrow>
            fst (handler c h (frameworkMsg msg)) = None) \<and>
         snd (snd (consume_turn c t h)) \<and>
         fst (consume_loop c (t # ts) h) =
           fst (consume_turn c t h) @
           fst (consume_loop c ts (fst (snd (consume_turn c t h))))"
proof -
  have go_on: "snd (snd (consume_turn c t h))"
    using assms by (rule consume_turn_fetched(1))
  obtain evs h' where turn: "consume_turn c t h = (evs, h', True)"
    using go_on by (cases "consume_turn c t h") auto
  have "fst (consume_loop c (t # ts) h) = evs @ fst (consume_loop c ts h')"
    using turn by (simp split: prod.splits)
  with turn consume_turn_fetched(2) [OF assms, of c h] show ?thesis
    by simp
qed

theorem consume_commits_iff_handled_witness:
  "\<not> ctx_Done (fetch_of empty_msg None) \<and>
   fetched (fetch_of empty_msg None) = Inr empty_msg \<and>
   fst (reject_empty 0 (frameworkMsg empty_msg)) \<noteq> None \<and>
   CommitMessages empty_msg \<notin> set (fst (consume_turn events_consumer (fetch_of empty_msg None) 0)) \<and>
   fst (consume_loop events_consumer
          [fetch_of empty_msg None,
           fetch_of good_msg (Some (errors_New ''broker unavailable'')),
           fetch_of good_msg None] 0) =
     [FetchMessage, Handle (frameworkMsg empty_msg),
      Log_Error ''Failed to handle message'' (errors_New ''empty payload'') (msg_fields empty_msg),
      FetchMessage, Handle (frameworkMsg good_msg), CommitMessages good_msg,
      Log_Error ''Failed to commit Kafka message'' (errors_New ''broker unavailable'')
        (msg_fields good_msg),
      FetchMessage, Handle (frameworkMsg good_msg), CommitMessages good_msg]"
proof -
  have d: "\<not> ctx_Done (fetch_of empty_msg None)"
    and f: "fetched (fetch_of empty_msg None) = Inr empty_msg"
    by (simp_all add: fetch_of_def)
  have hd: "handler events_consumer = reject_empty"
    by (simp add: events_consumer_def NewKafkaConsumer_def)
  have r: "fst (reject_empty 0 (frameworkMsg empty_msg)) \<noteq> None"
    by (simp add: reject_empty_def frameworkMsg_def empty_msg_def)
  note inst = consume_commits_iff_handled [OF d f, of events_consumer 0
      "[fetch_of good_msg (Some (errors_New ''broker unavailable'')), fetch_of good_msg None]"]
  from inst r have nc: "CommitMessages empty_msg \<notin>
      set (fst (consume_turn events_consumer (fetch_of empty_msg None) 0))"
    by (simp add: hd)
  have turn: "consume_turn events_consumer (fetch_of empty_msg None) 0 =
      ([FetchMessage, Handle (frameworkMsg empty_msg),
        Log_Error ''Failed to handle message'' (errors_New ''empty payload'')
          (msg_fields empty_msg)], 0, True)"
    by (simp add: consume_turn_def fetch_of_def hd reject_empty_def frameworkMsg_def
        empty_msg_def)
  have rest: "fst (consume_loop events_consumer
      [fetch_of good_msg (Some (errors_New ''broker unavailable'')), fetch_of good_msg None] 0) =
      [FetchMessage, Handle (frameworkMsg good_msg), CommitMessages good_msg,
       Log_Error ''Failed to commit Kafka message'' (errors_New ''broker unavailable'')
         (msg_fields good_msg),
       FetchMessage, Handle (frameworkMsg good_msg), CommitMessages good_msg]"
    by (simp add: consume_turn_def fetch_of_def hd reject_empty_def frameworkMsg_def
        good_msg_def)
  from inst have "fst (consume_loop events_consumer
      (fetch_of empty_msg None #
       [fetch_of good_msg (Some (errors_New ''broker unavailable'')), fetch_of good_msg None]) 0) =
      fst (consume_turn events_consumer (fetch_of empty_msg None) 0) @
      fst (consume_loop events_consumer
        [fetch_of good_msg (Some (errors_New ''broker unavailable'')), fetch_of good_msg None]
        (fst (snd (consume_turn events_consumer (fetch_of empty_msg None) 0))))"
    by blast
  with turn rest d f r nc show ?thesis
    by simp
qed

section \<open>Properties of the kernel of the specification\<close>

lemma sealed_register: "sealed (register capable reg r) = sealed reg"
  by (cases r)
    (simp_all add: register_def RegisterComponent_def RegisterBinding_def
      RegisterGroupMember_def)

lemma collect_group_register:
  "\<not> sealed reg \<Longrightarrow>
   collect_group instantiate (register capable reg r) G =
     collect_group instantiate reg G @ map instantiate (registered_to G [r])"
  by (cases r)
    (simp_all add: register_def RegisterComponent_def RegisterBinding_def
      RegisterGroupMember_def collect_group_def)

lemma registered_to_Cons:
  "registered_to G (r # rs) = registered_to G [r] @ registered_to G rs"
  by (cases r) simp_all

text \<open>
  C3. On a registry that is not sealed, whatever calls a program makes, the sequence
  delivered for a group \<open>G\<close> is what was delivered before, followed by the members the
  program registered to \<open>G\<close>, in the order of their registration, each as often as it
  was registered; registrations of components, bindings and members of other groups in
  between do not change it.
\<close>

theorem group_delivered_in_registration_order:
  assumes "\<not> sealed reg"
  shows "collect_group instantiate (register_all capable reg rs) G =
           collect_group instantiate reg G @ map instantiate (registered_to G rs)"
  using assms
proof (induction rs arbitrary: reg)
  case Nil
  then show ?case by (simp add: register_all_def)
next
  case (Cons r rs)
  from Cons.prems have open': "\<not> sealed (register capable reg r)"
    by (simp add: sealed_register)
  have "collect_group instantiate (register_all capable reg (r # rs)) G =
        collect_group instantiate (register_all capable (register capable reg r) rs) G"
    by (simp add: register_all_def)
  also have "\<dots> = collect_group instantiate (register capable reg r) G @
        map instantiate (registered_to G rs)"
    using open' by (rule Cons.IH)
  also have "\<dots> = collect_group instantiate reg G @
        map instantiate (registered_to G [r]) @ map instantiate (registered_to G rs)"
    using Cons.prems by (simp add: collect_group_register)
  also have "\<dots> = collect_group instantiate reg G @ map instantiate (registered_to G (r # rs))"
    by (simp add: registered_to_Cons [of G r rs])
  finally show ?case .
qed

theorem group_delivered_in_registration_order_witness:
  "\<not> sealed empty_registry \<and>
   collect_group (\<lambda>c. c) (register_all (\<lambda>c i. True) empty_registry handler_program)
     ''http.handlers'' = [''c1'', ''c2'', ''c1'']"
proof -
  have h: "\<not> sealed empty_registry"
    by (simp add: empty_registry_def)
  have m: "registered_to ''http.handlers'' handler_program = [''c1'', ''c2'', ''c1'']"
    by (simp add: handler_program_def)
  have e: "collect_group (\<lambda>c. c) empty_registry ''http.handlers'' = []"
    by (simp add: collect_group_def empty_registry_def)
  from group_delivered_in_registration_order
    [OF h, of "\<lambda>c. c" "\<lambda>c i. True" handler_program "''http.handlers''"]
  show ?thesis
    using h m e by simp
qed

lemma rollback_calls:
  "snd (rollback started s calls) =
     calls @ map (\<lambda>p. Called_onStop (fst p)) (filter (\<lambda>p. onStop (snd p) \<noteq> None) started)"
  by (induction started arbitrary: s calls) (auto split: option.splits)

lemma hook_error_None: "hook_error r = None \<longleftrightarrow> r = Ok"
  by (cases r) simp_all

lemma start_from_failed:
  assumes "start_from k hs started s calls = (Some err, s', calls')"
  shows "\<exists>j<length hs. \<exists>r cause.
           hook_error r = Some cause \<and>
           err = StartError (ownerType (hs ! j)) cause \<and>
           calls' =
             calls @ map (\<lambda>p. Called_onStart (fst p) Ok) (enumerate k (take j hs)) @
             [Called_onStart (k + j) r] @
             map (\<lambda>p. Called_onStop (fst p))
               (filter (\<lambda>p. onStop (snd p) \<noteq> None) (rev (enumerate k (take j hs)) @ started))"
  using assms
proof (induction hs arbitrary: k started s calls)
  case Nil
  then show ?case by simp
next
  case (Cons h hs)
  obtain r s1 where first: "onStart h s = (r, s1)"
    by (cases "onStart h s")
  show ?case
  proof (cases "hook_error r")
    case None
    then have ok: "r = Ok" by (simp add: hook_error_None)
    from Cons.prems first None
    have "start_from (Suc k) hs ((k, h) # started) s1 (calls @ [Called_onStart k r]) =
            (Some err, s', calls')"
      by simp
    from Cons.IH [OF this] obtain j r' cause where
      j: "j < length hs" and e: "hook_error r' = Some cause"
      and o: "err = StartError (ownerType (hs ! j)) cause"
      and c: "calls' =
             (calls @ [Called_onStart k r]) @
             map (\<lambda>p. Called_onStart (fst p) Ok) (enumerate (Suc k) (take j hs)) @
             [Called_onStart (Suc k + j) r'] @
             map (\<lambda>p. Called_onStop (fst p))
               (filter (\<lambda>p. onStop (snd p) \<noteq> None)
                  (rev (enumerate (Suc k) (take j hs)) @ (k, h) # started))"
      by blast
    have "Suc j < length (h # hs)" using j by simp
    moreover have "err = StartError (ownerType ((h # hs) ! Suc j)) cause"
      using o by simp
    moreover have "calls' =
             calls @ map (\<lambda>p. Called_onStart (fst p) Ok) (enumerate k (take (Suc j) (h # hs))) @
             [Called_onStart (k + Suc j) r'] @
             map (\<lambda>p. Called_onStop (fst p))
               (filter (\<lambda>p. onStop (snd p) \<noteq> None)
                  (rev (enumerate k (take (Suc j) (h # hs))) @ started))"
      using c ok by simp
    ultimately show ?thesis using e by blast
  next
    case (Some cause)
    from Cons.prems first Some
    have "err = StartError (ownerType h) cause"
      and "calls' = snd (rollback started s1 (calls @ [Called_onStart k r]))"
      by (auto split: prod.splits)
    then have "err = StartError (ownerType ((h # hs) ! 0)) cause"
      and "calls' =
             calls @ map (\<lambda>p. Called_onStart (fst p) Ok) (enumerate k (take 0 (h # hs))) @
             [Called_onStart (k + 0) r] @
             map (\<lambda>p. Called_onStop (fst p))
               (filter (\<lambda>p. onStop (snd p) \<noteq> None)
                  (rev (enumerate k (take 0 (h # hs))) @ started))"
      by (simp_all add: rollback_calls)
    moreover have "0 < length (h # hs)" by simp
    ultimately show ?thesis using Some by blast
  qed
qed

lemma enumerate_take_nth:
  "j \<le> length hs \<Longrightarrow> enumerate 0 (take j hs) = map (\<lambda>i. (i, hs ! i)) [0..<j]"
  by (rule nth_equalityI) (simp_all add: nth_enumerate_eq)

lemma Start_hooks_error_shape:
  assumes "Start_hooks hooks s = (Some err, s', calls)"
  shows "\<exists>j<length hooks. \<exists>r cause.
           hook_error r = Some cause \<and>
           err = StartError (ownerType (hooks ! j)) cause \<and>
           calls =
             map (\<lambda>i. Called_onStart i Ok) [0..<j] @ [Called_onStart j r] @
             map Called_onStop (filter (\<lambda>i. onStop (hooks ! i) \<noteq> None) (rev [0..<j]))"
proof -
  from assms have "start_from 0 hooks [] s [] = (Some err, s', calls)"
    by (simp add: Start_hooks_def)
  from start_from_failed [OF this] obtain j r cause where
    j: "j < length hooks" and e: "hook_error r = Some cause"
    and o: "err = StartError (ownerType (hooks ! j)) cause"
    and c: "calls =
             [] @ map (\<lambda>p. Called_onStart (fst p) Ok) (enumerate 0 (take j hooks)) @
             [Called_onStart (0 + j) r] @
             map (\<lambda>p. Called_onStop (fst p))
               (filter (\<lambda>p. onStop (snd p) \<noteq> None) (rev (enumerate 0 (take j hooks)) @ []))"
    by blast
  from j have en: "enumerate 0 (take j hooks) = map (\<lambda>i. (i, hooks ! i)) [0..<j]"
    by (simp add: enumerate_take_nth)
  have "calls =
             map (\<lambda>i. Called_onStart i Ok) [0..<j] @ [Called_onStart j r] @
             map Called_onStop (filter (\<lambda>i. onStop (hooks ! i) \<noteq> None) (rev [0..<j]))"
    unfolding c en by (simp add: rev_map filter_map comp_def)
  with j e o show ?thesis by blast
qed

lemma rollback_state:
  "fst (rollback started s calls) = fst (rollback started s calls')"
  by (induction started arbitrary: s calls calls') (auto split: option.splits)

lemma start_from_fails_at:
  assumes "j < length hs"
    and "st 0 = s"
    and "\<forall>i<j. onStart (hs ! i) (st i) = (Ok, st (Suc i))"
    and "onStart (hs ! j) (st j) = (r, sj)"
    and "hook_error r = Some cause"
  shows "start_from k hs started s calls =
           (Some (StartError (ownerType (hs ! j)) cause),
            rollback (rev (enumerate k (take j hs)) @ started) sj
              (calls @ map (\<lambda>p. Called_onStart (fst p) Ok) (enumerate k (take j hs)) @
               [Called_onStart (k + j) r]))"
  using assms
proof (induction hs arbitrary: j k started s calls st)
  case Nil
  then show ?case by simp
next
  case (Cons h hs)
  show ?case
  proof (cases j)
    case 0
    with Cons.prems have "onStart h s = (r, sj)" by simp
    with Cons.prems(5) 0 show ?thesis
      by (simp split: prod.splits)
  next
    case (Suc j')
    from Cons.prems(3) Suc have "onStart ((h # hs) ! 0) (st 0) = (Ok, st (Suc 0))"
      by blast
    with Cons.prems(2) have first: "onStart h s = (Ok, st (Suc 0))" by simp
    have a: "j' < length hs" using Cons.prems(1) Suc by simp
    have b: "(st \<circ> Suc) 0 = st (Suc 0)" by simp
    have c: "\<forall>i<j'. onStart (hs ! i) ((st \<circ> Suc) i) = (Ok, (st \<circ> Suc) (Suc i))"
    proof (intro allI impI)
      fix i assume "i < j'"
      then have "Suc i < j" using Suc by simp
      with Cons.prems(3) have "onStart ((h # hs) ! Suc i) (st (Suc i)) = (Ok, st (Suc (Suc i)))"
        by blast
      then show "onStart (hs ! i) ((st \<circ> Suc) i) = (Ok, (st \<circ> Suc) (Suc i))" by simp
    qed
    have d: "onStart (hs ! j') ((st \<circ> Suc) j') = (r, sj)"
      using Cons.prems(4) Suc by simp
    note ih = Cons.IH [OF a b c d Cons.prems(5), of "Suc k" "(k, h) # started"
        "calls @ [Called_onStart k Ok]"]
    from first ih Suc show ?thesis
      by simp
  qed
qed

text \<open>
  C5. Let the hooks before hook \<open>j\<close> end well one after the other from the state Start
  is called in (\<open>st i\<close> is the state in which hook \<open>i\<close> starts), and let
  \<open>onStart\<close> of hook \<open>j\<close> fail. Then Start reports a StartError with the owner of
  hook \<open>j\<close> and the cause hook \<open>j\<close> returned, and the calls the coordinator made are
  exactly: \<open>onStart\<close> of the hooks before \<open>j\<close>, in start order; \<open>onStart\<close> of hook
  \<open>j\<close>; then \<open>onStop\<close> of the hooks before \<open>j\<close> (those that have one), in reverse
  order, whose effect is the state Start leaves. So \<open>onStop\<close> of hook \<open>j\<close> and of
  every later hook is not called, and no \<open>onStart\<close> after \<open>j\<close> runs.
\<close>

theorem Start_rollback:
  assumes "j < length hooks"
    and "st 0 = s"
    and "\<forall>i<j. onStart (hooks ! i) (st i) = (Ok, st (Suc i))"
    and "onStart (hooks ! j) (st j) = (r, sj)"
    and "hook_error r = Some cause"
  shows "Start_hooks hooks s =
           (Some (StartError (ownerType (hooks ! j)) cause),
            fst (rollback (rev (map (\<lambda>i. (i, hooks ! i)) [0..<j])) sj []),
            map (\<lambda>i. Called_onStart i Ok) [0..<j] @ [Called_onStart j r] @
            map Called_onStop (filter (\<lambda>i. onStop (hooks ! i) \<noteq> None) (rev [0..<j])))"
proof -
  from assms(1) have en: "enumerate 0 (take j hooks) = map (\<lambda>i. (i, hooks ! i)) [0..<j]"
    by (simp add: enumerate_take_nth)
  let ?started = "rev (map (\<lambda>i. (i, hooks ! i)) [0..<j])"
  let ?calls = "map (\<lambda>i. Called_onStart i Ok) [0..<j] @ [Called_onStart j r]"
  have "Start_hooks hooks s =
      (Some (StartError (ownerType (hooks ! j)) cause), rollback ?started sj ?calls)"
    using start_from_fails_at [OF assms, of 0 "[]" "[]"]
    by (simp add: Start_hooks_def en comp_def)
  moreover have "fst (rollback ?started sj ?calls) = fst (rollback ?started sj [])"
    by (rule rollback_state)
  moreover have "snd (rollback ?started sj ?calls) =
      ?calls @ map Called_onStop (filter (\<lambda>i. onStop (hooks ! i) \<noteq> None) (rev [0..<j]))"
    by (simp add: rollback_calls rev_map filter_map comp_def)
  ultimately show ?thesis
    by (simp add: prod_eq_iff)
qed

theorem Start_rollback_witness:
  "(3::nat) < length demo_hooks \<and>
   demo_states 0 = [] \<and>
   onStart (demo_hooks ! 0) (demo_states 0) = (Ok, demo_states 1) \<and>
   onStart (demo_hooks ! 1) (demo_states 1) = (Ok, demo_states 2) \<and>
   onStart (demo_hooks ! 2) (demo_states 2) = (Ok, demo_states 3) \<and>
   onStart (demo_hooks ! 3) (demo_states 3) =
     (Failed ''boom'', [''A.onStart'', ''B.onStart'', ''C.onStart'', ''D.onStart'']) \<and>
   hook_error (Failed ''boom'') = Some (Cause ''boom'') \<and>
   Start_hooks demo_hooks [] =
     (Some (StartError ''D'' (Cause ''boom'')),
      [''A.onStart'', ''B.onStart'', ''C.onStart'', ''D.onStart'', ''C.onStop'', ''A.onStop''],
      [Called_onStart 0 Ok, Called_onStart 1 Ok, Called_onStart 2 Ok,
       Called_onStart 3 (Failed ''boom''), Called_onStop 2, Called_onStop 0])"
proof -
  have j: "(3::nat) < length demo_hooks"
    by (simp add: demo_hooks_def)
  have s0: "demo_states 0 = []"
    by (simp add: demo_states_def)
  have h0: "onStart (demo_hooks ! 0) (demo_states 0) = (Ok, demo_states 1)"
    and h1: "onStart (demo_hooks ! 1) (demo_states 1) = (Ok, demo_states 2)"
    and h2: "onStart (demo_hooks ! 2) (demo_states 2) = (Ok, demo_states 3)"
    by (simp_all add: demo_hooks_def hook_of_def demo_states_def)
  have before: "\<forall>i<3. onStart (demo_hooks ! i) (demo_states i) = (Ok, demo_states (Suc i))"
  proof (intro allI impI)
    fix i :: nat assume "i < 3"
    then have "i = 0 \<or> i = 1 \<or> i = 2" by arith
    with h0 h1 h2 show "onStart (demo_hooks ! i) (demo_states i) = (Ok, demo_states (Suc i))"
      by (auto simp: numeral_2_eq_2 numeral_3_eq_3)
  qed
  have h3: "onStart (demo_hooks ! 3) (demo_states 3) =
      (Failed ''boom'', [''A.onStart'', ''B.onStart'', ''C.onStart'', ''D.onStart''])"
    by (simp add: demo_hooks_def hook_of_def demo_states_def)
  have e: "hook_error (Failed ''boom'') = Some (Cause ''boom'')"
    by simp
  have owner: "ownerType (demo_hooks ! 3) = ''D''"
    by (simp add: demo_hooks_def hook_of_def)
  have undo: "fst (rollback (rev (map (\<lambda>i. (i, demo_hooks ! i)) [0..<3]))
      [''A.onStart'', ''B.onStart'', ''C.onStart'', ''D.onStart''] []) =
      [''A.onStart'', ''B.onStart'', ''C.onStart'', ''D.onStart'', ''C.onStop'', ''A.onStop'']"
    by (simp add: upt_rec demo_hooks_def hook_of_def)
  have log: "map (\<lambda>i. Called_onStart i Ok) [0..<3] @ [Called_onStart 3 (Failed ''boom'')] @
      map Called_onStop (filter (\<lambda>i. onStop (demo_hooks ! i) \<noteq> None) (rev [0..<3])) =
      [Called_onStart 0 Ok, Called_onStart 1 Ok, Called_onStart 2 Ok,
       Called_onStart 3 (Failed ''boom''), Called_onStop 2, Called_onStop 0]"
    by (simp add: upt_rec demo_hooks_def hook_of_def)
  note run = Start_rollback [OF j s0 before h3 e, unfolded owner undo log]
  from j s0 h0 h1 h2 h3 e run show ?thesis
    by blast
qed

end
